theory Spec2Isabelle
  imports Complex_Main
begin

section \<open>Numbers\<close>

text \<open>
  A JavaScript number is an IEEE 754 double: a finite value, one of the two infinities,
  or NaN. The finite values are kept as the real numbers they stand for; every result of
  an operation is rounded to a double, and a request may carry any finite value here, of
  which the doubles are those a JSON body can give. The two zeros are one value here:
  they compare equal, both are falsy, JSON prints both as \<open>0\<close>, and no division occurs in
  the handlers.
\<close>

datatype jsnum = Num real | PInf | NInf | NaN

text \<open>The number of binary digits of a positive integer.\<close>

function bit_length :: "int \<Rightarrow> int" where
  "bit_length n = (if n \<le> 0 then 0 else 1 + bit_length (n div 2))"
  by pat_completeness auto
termination
  by (relation "measure nat") auto

declare bit_length.simps [simp del]

definition pow2 :: "int \<Rightarrow> real" where
  "pow2 k = (if 0 \<le> k then 2 ^ nat k else 1 / 2 ^ nat (- k))"

text \<open>For \<open>a > 0\<close>, the exponent \<open>e\<close> with \<open>2 ^ e \<le> a < 2 ^ (e + 1)\<close>.\<close>

definition exponent :: "real \<Rightarrow> int" where
  "exponent a =
     (if 1 \<le> a then bit_length \<lfloor>a\<rfloor> - 1 else - bit_length (\<lceil>1 / a\<rceil> - 1))"

definition round_half_even :: "real \<Rightarrow> int" where
  "round_half_even x =
     (if x - of_int \<lfloor>x\<rfloor> < 1 / 2 then \<lfloor>x\<rfloor>
      else if 1 / 2 < x - of_int \<lfloor>x\<rfloor> then \<lfloor>x\<rfloor> + 1
      else if even \<lfloor>x\<rfloor> then \<lfloor>x\<rfloor> else \<lfloor>x\<rfloor> + 1)"

text \<open>
  Rounding to the nearest double, ties to even. Around \<open>a > 0\<close> the doubles are the
  multiples of \<open>quantum a\<close>: 53 significant bits, and the spacing of the subnormal
  numbers below \<open>2 ^ - 1022\<close>. A result of \<open>2 ^ 1024\<close> or more is an infinity.
\<close>

definition quantum :: "real \<Rightarrow> real" where
  "quantum a = pow2 (max (exponent a) (- 1022) - 52)"

definition nearest :: "real \<Rightarrow> real" where
  "nearest a = of_int (round_half_even (a / quantum a)) * quantum a"

definition round64 :: "real \<Rightarrow> jsnum" where
  "round64 x =
     (if x = 0 then Num 0
      else if pow2 1024 \<le> nearest \<bar>x\<bar> then (if 0 < x then PInf else NInf)
      else Num (if 0 < x then nearest \<bar>x\<bar> else - nearest \<bar>x\<bar>))"

text \<open>\<open>x * y\<close> and \<open>x + y\<close> on numbers.\<close>

fun js_mul :: "jsnum \<Rightarrow> jsnum \<Rightarrow> jsnum" where
  "js_mul (Num a) (Num b) = round64 (a * b)"
| "js_mul NaN y = NaN"
| "js_mul x NaN = NaN"
| "js_mul (Num a) y = (if a = 0 then NaN else if (0 < a) = (y = PInf) then PInf else NInf)"
| "js_mul x (Num b) = (if b = 0 then NaN else if (0 < b) = (x = PInf) then PInf else NInf)"
| "js_mul PInf PInf = PInf"
| "js_mul NInf NInf = PInf"
| "js_mul PInf NInf = NInf"
| "js_mul NInf PInf = NInf"

fun js_add :: "jsnum \<Rightarrow> jsnum \<Rightarrow> jsnum" where
  "js_add (Num a) (Num b) = round64 (a + b)"
| "js_add NaN y = NaN"
| "js_add x NaN = NaN"
| "js_add (Num a) y = y"
| "js_add x (Num b) = x"
| "js_add PInf PInf = PInf"
| "js_add NInf NInf = NInf"
| "js_add PInf NInf = NaN"
| "js_add NInf PInf = NaN"

text \<open>\<open>n < v\<close> for an integer read from the database and a number.\<close>

fun int_lt_num :: "int \<Rightarrow> jsnum \<Rightarrow> bool" where
  "int_lt_num n (Num r) = (of_int n < r)"
| "int_lt_num n PInf = True"
| "int_lt_num n NInf = False"
| "int_lt_num n NaN = False"

text \<open>\<open>!v\<close> on a number, and whether it is finite.\<close>

definition falsy_num :: "jsnum \<Rightarrow> bool" where
  "falsy_num v = (v = Num 0 \<or> v = NaN)"

fun is_finite :: "jsnum \<Rightarrow> bool" where
  "is_finite (Num r) = True"
| "is_finite v = False"

section \<open>Data model\<close>

text \<open>
  The tables of the migration: \<open>stock_items\<close>, \<open>orders\<close> and \<open>order_items\<close>.
  Identifiers are \<open>TEXT\<close> keys. A quantity is an \<open>INTEGER\<close> column (a signed 32-bit
  value: a write outside that range is refused by the database), a price is a
  \<open>DOUBLE PRECISION\<close> column. The rows of \<open>order_items\<close> are kept inside the order that
  owns them, in the order of the nested create. Timestamps and the \<open>users\<close> table are not
  part of the order workflow and are left out.
\<close>

type_synonym ident = string

datatype order_status = PENDING | APPROVED | REJECTED

record stock_item =
  si_name :: string
  si_quantity :: int
  si_buyingPrice :: jsnum
  si_sellingPrice :: "jsnum option"

record order_item =
  oi_stockItemId :: ident
  oi_quantity :: int
  oi_unitPrice :: jsnum
  oi_totalPrice :: jsnum

record order =
  customerName :: string
  customerContact :: string
  status :: order_status
  totalAmount :: jsnum
  rejectionReason :: "string option"
  salesRepId :: ident
  orderItems :: "order_item list"

type_synonym stock_table = "ident \<rightharpoonup> stock_item"
type_synonym order_table = "ident \<rightharpoonup> order"

record state =
  stock :: stock_table
  orders :: order_table

text \<open>
  The request bodies, as \<open>express.json\<close> hands them to the handlers. A field that the
  JSON body does not carry is \<open>None\<close>. One element of \<open>items\<close> has a stock item id, a
  quantity and an optional selling price; both are numbers (the double nearest to the
  number written in the body, \<open>round64\<close> of it), and nothing in the handler makes the
  quantity an integer.
\<close>

record item_req =
  stockItemId :: ident
  quantity :: jsnum
  sellingPrice :: "jsnum option"

record order_body =
  body_customerName :: "string option"
  body_customerContact :: "string option"
  body_items :: "item_req list option"

text \<open>
  The error responses of the three handlers, with the status code and the message each
  one sends. Every exception thrown inside a handler's \<open>try\<close> block reaches its
  \<open>catch\<close> block, which answers 500 \<open>Internal server error\<close>.
\<close>

datatype error =
    MissingFields
  | StockNotFound ident
  | InsufficientStock string
  | OrderNotFound
  | OrderNotPending
  | MissingReason
  | InternalServerError

fun status_code :: "error \<Rightarrow> nat" where
  "status_code MissingFields = 400"
| "status_code (StockNotFound i) = 400"
| "status_code (InsufficientStock n) = 400"
| "status_code OrderNotFound = 404"
| "status_code OrderNotPending = 400"
| "status_code MissingReason = 400"
| "status_code InternalServerError = 500"

fun message :: "error \<Rightarrow> string" where
  "message MissingFields = ''Customer details and items are required''"
| "message (StockNotFound i) = ''Stock item not found: '' @ i"
| "message (InsufficientStock n) = ''Insufficient stock for '' @ n"
| "message OrderNotFound = ''Order not found''"
| "message OrderNotPending = ''Order is not pending''"
| "message MissingReason = ''Rejection reason is required''"
| "message InternalServerError = ''Internal server error''"

text \<open>\<open>!v\<close> on an optional string: true when the field is absent or the empty string.\<close>

definition falsy :: "string option \<Rightarrow> bool" where
  "falsy v = (case v of None \<Rightarrow> True | Some str \<Rightarrow> str = [])"

section \<open>The persistence layer\<close>

text \<open>The range of an \<open>INTEGER\<close> column.\<close>

definition int4 :: "int \<Rightarrow> bool" where
  "int4 n = (- 2147483648 \<le> n \<and> n \<le> 2147483647)"

text \<open>
  What the persistence layer stores in an \<open>INTEGER\<close> column when it is handed a number.
  An integer in the range of the column is stored as it is; an integer outside the range,
  an infinity and NaN are refused. What becomes of a finite number that is not an integer
  (it may be refused, or cut to an integer) is the persistence layer's own matter, the
  parameter \<open>coerce\<close>; \<open>None\<close> is a refusal, which the handler sees as an exception.
\<close>

type_synonym int_column = "real \<Rightarrow> int option"

fun to_int_column :: "int_column \<Rightarrow> jsnum \<Rightarrow> int option" where
  "to_int_column coerce (Num r) =
     (if r = of_int \<lfloor>r\<rfloor> then (if int4 \<lfloor>r\<rfloor> then Some \<lfloor>r\<rfloor> else None)
      else
        (case coerce r of
           None \<Rightarrow> None
         | Some n \<Rightarrow> if int4 n then Some n else None))"
| "to_int_column coerce v = None"

text \<open>
  The \<open>data\<close> of \<open>prisma.order.create\<close>: the order's fields and its line items as
  the handler has computed them.
\<close>

record draft_item =
  d_stockItemId :: ident
  d_quantity :: jsnum
  d_unitPrice :: jsnum
  d_totalPrice :: jsnum

record order_data =
  new_customerName :: string
  new_customerContact :: string
  new_totalAmount :: jsnum
  new_salesRepId :: ident
  new_orderItems :: "draft_item list"

text \<open>
  One line item as a row: its quantity goes into an \<open>INTEGER\<close> column, and its prices
  must be finite to be stored.
\<close>

definition store_item :: "int_column \<Rightarrow> draft_item \<Rightarrow> order_item option" where
  "store_item coerce d =
     (case to_int_column coerce (d_quantity d) of
        None \<Rightarrow> None
      | Some n \<Rightarrow>
          if is_finite (d_unitPrice d) \<and> is_finite (d_totalPrice d)
          then Some \<lparr>oi_stockItemId = d_stockItemId d, oi_quantity = n,
                      oi_unitPrice = d_unitPrice d, oi_totalPrice = d_totalPrice d\<rparr>
          else None)"

fun store_items :: "int_column \<Rightarrow> draft_item list \<Rightarrow> order_item list option" where
  "store_items coerce [] = Some []"
| "store_items coerce (d # ds) =
     (case store_item coerce d of
        None \<Rightarrow> None
      | Some l \<Rightarrow>
          (case store_items coerce ds of
             None \<Rightarrow> None
           | Some ls \<Rightarrow> Some (l # ls)))"

text \<open>
  \<open>prisma.order.create\<close> with its nested line items: one write, which answers the
  stored order. \<open>new_id\<close> is the key the persistence layer generates for the new row.
  The write is refused (it throws) when the key is taken or a value cannot be stored in
  its column. A new order is PENDING and has no rejection reason (the column defaults).
\<close>

definition insert_order ::
  "int_column \<Rightarrow> ident \<Rightarrow> order_data \<Rightarrow> state \<Rightarrow> error + order \<times> state"
where
  "insert_order coerce new_id data s =
     (case orders s new_id of
        Some taken \<Rightarrow> Inl InternalServerError
      | None \<Rightarrow>
          if is_finite (new_totalAmount data)
          then
            (case store_items coerce (new_orderItems data) of
               None \<Rightarrow> Inl InternalServerError
             | Some lines \<Rightarrow>
                 Inr (\<lparr>customerName = new_customerName data,
                       customerContact = new_customerContact data,
                       status = PENDING, totalAmount = new_totalAmount data,
                       rejectionReason = None, salesRepId = new_salesRepId data,
                       orderItems = lines\<rparr>,
                      s\<lparr>orders := (orders s)(new_id \<mapsto>
                        \<lparr>customerName = new_customerName data,
                         customerContact = new_customerContact data,
                         status = PENDING, totalAmount = new_totalAmount data,
                         rejectionReason = None, salesRepId = new_salesRepId data,
                         orderItems = lines\<rparr>)\<rparr>))
          else Inl InternalServerError)"

text \<open>
  \<open>prisma.$transaction\<close>: the callback runs on the state; when it throws, its writes are
  rolled back and the exception is passed on.
\<close>

definition transaction :: "(state \<Rightarrow> error + state) \<Rightarrow> state \<Rightarrow> (error + unit) \<times> state" where
  "transaction body s = (case body s of Inl e \<Rightarrow> (Inl e, s) | Inr s' \<Rightarrow> (Inr (), s'))"

section \<open>Create order\<close>

text \<open>
  The loop of \<open>POST /\<close> over the requested items, with its two accumulators
  \<open>totalAmount\<close> and \<open>orderItems\<close>. It reads the stock table and returns at the first
  line whose stock item is missing or too small.
\<close>

fun validate_items ::
  "stock_table \<Rightarrow> item_req list \<Rightarrow> jsnum \<Rightarrow> draft_item list \<Rightarrow> error + jsnum \<times> draft_item list"
where
  "validate_items st [] amount acc = Inr (amount, acc)"
| "validate_items st (item # rest) amount acc =
     (case st (stockItemId item) of
        None \<Rightarrow> Inl (StockNotFound (stockItemId item))
      | Some stockItem \<Rightarrow>
          if int_lt_num (si_quantity stockItem) (quantity item)
          then Inl (InsufficientStock (si_name stockItem))
          else
            let price = (case sellingPrice item of
                           None \<Rightarrow> Num 0
                         | Some p \<Rightarrow> if falsy_num p then Num 0 else p);
                itemTotal = js_mul price (quantity item)
            in validate_items st rest (js_add amount itemTotal)
                 (acc @ [\<lparr>d_stockItemId = stockItemId item, d_quantity = quantity item,
                          d_unitPrice = price, d_totalPrice = itemTotal\<rparr>]))"

text \<open>
  \<open>POST /\<close>. \<open>user_id\<close> is the authenticated caller. The first test of the handler,
  \<open>!customerName || !customerContact || !items || items.length === 0\<close>, is the
  pattern match with its test for empty values. The handler only reads until its one
  write at the end; it is taken here on one state, with no other request between its
  reads.
\<close>

definition create_order ::
  "int_column \<Rightarrow> ident \<Rightarrow> ident \<Rightarrow> order_body \<Rightarrow> state \<Rightarrow> (error + order) \<times> state"
where
  "create_order coerce new_id user_id body s =
     (case (body_customerName body, body_customerContact body, body_items body) of
        (Some cname, Some contact, Some items) \<Rightarrow>
          if cname = [] \<or> contact = [] \<or> items = [] then (Inl MissingFields, s)
          else
            (case validate_items (stock s) items (Num 0) [] of
               Inl e \<Rightarrow> (Inl e, s)
             | Inr (amount, drafts) \<Rightarrow>
                 (case insert_order coerce new_id
                         \<lparr>new_customerName = cname, new_customerContact = contact,
                          new_totalAmount = amount, new_salesRepId = user_id,
                          new_orderItems = drafts\<rparr> s of
                    Inl e \<Rightarrow> (Inl InternalServerError, s)
                  | Inr (ord, s') \<Rightarrow> (Inr ord, s')))
      | _ \<Rightarrow> (Inl MissingFields, s))"

section \<open>Approve order\<close>

text \<open>
  The re-check loop of \<open>PATCH /:id/approve\<close>, over the order's lines and the stock rows
  loaded with them. A line whose stock row is absent makes the property read throw.
\<close>

fun check_stock :: "stock_table \<Rightarrow> order_item list \<Rightarrow> error option" where
  "check_stock st [] = None"
| "check_stock st (orderItem # rest) =
     (case st (oi_stockItemId orderItem) of
        None \<Rightarrow> Some InternalServerError
      | Some stockItem \<Rightarrow>
          if si_quantity stockItem < oi_quantity orderItem
          then Some (InsufficientStock (si_name stockItem))
          else check_stock st rest)"

text \<open>
  The first part of the handler, up to the transaction: the order is read with its lines
  and their stock rows, and tested. It writes nothing, and answers the order it has read.
\<close>

definition approve_check :: "ident \<Rightarrow> state \<Rightarrow> error + order" where
  "approve_check oid s =
     (case orders s oid of
        None \<Rightarrow> Inl OrderNotFound
      | Some ord \<Rightarrow>
          if status ord \<noteq> PENDING then Inl OrderNotPending
          else
            (case check_stock (stock s) (orderItems ord) of
               Some e \<Rightarrow> Inl e
             | None \<Rightarrow> Inr ord))"

text \<open>
  The writes inside the transaction, for the lines of the order read before. Each update
  decrements the quantity that is in the row when the update runs. \<open>fault = Some k\<close>
  lets the persistence layer fail at the write number \<open>k\<close> of the transaction (counted
  from 0); \<open>None\<close> is a run without such a failure. An update also throws when its row
  is absent or the new quantity does not fit the column. Reads are taken to succeed.
\<close>

fun deduct_stock ::
  "nat option \<Rightarrow> order_item list \<Rightarrow> stock_table \<Rightarrow> error + stock_table \<times> nat option"
where
  "deduct_stock fault [] st = Inr (st, fault)"
| "deduct_stock fault (orderItem # rest) st =
     (if fault = Some 0 then Inl InternalServerError
      else
        (case st (oi_stockItemId orderItem) of
           None \<Rightarrow> Inl InternalServerError
         | Some stockItem \<Rightarrow>
             let q = si_quantity stockItem - oi_quantity orderItem
             in if \<not> int4 q then Inl InternalServerError
                else deduct_stock (map_option (\<lambda>k. k - 1) fault) rest
                       (st(oi_stockItemId orderItem \<mapsto> stockItem\<lparr>si_quantity := q\<rparr>))))"

definition settlement :: "nat option \<Rightarrow> ident \<Rightarrow> order_item list \<Rightarrow> state \<Rightarrow> error + state" where
  "settlement fault oid lines s =
     (case deduct_stock fault lines (stock s) of
        Inl e \<Rightarrow> Inl e
      | Inr (st, fault') \<Rightarrow>
          if fault' = Some 0 then Inl InternalServerError
          else
            (case orders s oid of
               None \<Rightarrow> Inl InternalServerError
             | Some ord \<Rightarrow>
                 Inr (s\<lparr>stock := st, orders := (orders s)(oid \<mapsto> ord\<lparr>status := APPROVED\<rparr>)\<rparr>)))"

text \<open>
  The second part of the handler: the transaction, on the state as it is by then, and the
  order read back for the answer.
\<close>

definition approve_commit ::
  "nat option \<Rightarrow> ident \<Rightarrow> order_item list \<Rightarrow> state \<Rightarrow> (error + order option) \<times> state"
where
  "approve_commit fault oid lines s =
     (case transaction (settlement fault oid lines) s of
        (Inl e, s') \<Rightarrow> (Inl InternalServerError, s')
      | (Inr u, s') \<Rightarrow> (Inr (orders s' oid), s'))"

text \<open>
  \<open>PATCH /:id/approve\<close> when no other request runs between its two parts. Between the
  two parts the handler waits for the database, and other requests may run: such a run
  is \<open>approve_check\<close> on the state then and \<open>approve_commit\<close> on the state later.
\<close>

definition approve_order ::
  "nat option \<Rightarrow> ident \<Rightarrow> state \<Rightarrow> (error + order option) \<times> state"
where
  "approve_order fault oid s =
     (case approve_check oid s of
        Inl e \<Rightarrow> (Inl e, s)
      | Inr ord \<Rightarrow> approve_commit fault oid (orderItems ord) s)"

section \<open>Reject order\<close>

text \<open>
  \<open>PATCH /:id/reject\<close>: one update by key, which throws when the row is absent.
\<close>

definition reject_order ::
  "ident \<Rightarrow> string option \<Rightarrow> state \<Rightarrow> (error + order) \<times> state"
where
  "reject_order oid reason s =
     (if falsy reason then (Inl MissingReason, s)
      else
        (case orders s oid of
           None \<Rightarrow> (Inl InternalServerError, s)
         | Some ord \<Rightarrow>
             let ord' = ord\<lparr>status := REJECTED, rejectionReason := reason\<rparr>
             in (Inr ord', s\<lparr>orders := (orders s)(oid \<mapsto> ord')\<rparr>)))"

section \<open>Sequences of requests\<close>

text \<open>
  The steps that change the state, one after the other: a create, an approval that
  nothing interrupts, the transaction of an approval whose first part ran earlier (with
  the lines it read then), a reject, and a write of the stock routes. The stock routes
  (add a stock item, update one) write the stock table only: such a write is taken as an
  arbitrary function on it.
\<close>

datatype request =
    CreateOrder ident ident order_body
  | ApproveOrder "nat option" ident
  | ApproveCommit "nat option" ident "order_item list"
  | RejectOrder ident "string option"
  | StockEdit "stock_table \<Rightarrow> stock_table"

fun handle :: "int_column \<Rightarrow> request \<Rightarrow> state \<Rightarrow> state" where
  "handle coerce (CreateOrder new_id user_id body) s =
     snd (create_order coerce new_id user_id body s)"
| "handle coerce (ApproveOrder fault oid) s = snd (approve_order fault oid s)"
| "handle coerce (ApproveCommit fault oid lines) s = snd (approve_commit fault oid lines s)"
| "handle coerce (RejectOrder oid reason) s = snd (reject_order oid reason s)"
| "handle coerce (StockEdit f) s = s\<lparr>stock := f (stock s)\<rparr>"

fun run :: "int_column \<Rightarrow> request list \<Rightarrow> state \<Rightarrow> state" where
  "run coerce [] s = s"
| "run coerce (r # rs) s = run coerce rs (handle coerce r s)"

section \<open>Notions of the specification\<close>

text \<open>
  The line the specification describes for one requested line: the requested quantity,
  the supplied selling price (0 when none is supplied) as unit price, and the product of
  unit price and quantity as total price.
\<close>

definition unit_price :: "item_req \<Rightarrow> jsnum" where
  "unit_price item =
     (case sellingPrice item of None \<Rightarrow> Num 0 | Some p \<Rightarrow> if falsy_num p then Num 0 else p)"

definition line_total :: "item_req \<Rightarrow> jsnum" where
  "line_total item = js_mul (unit_price item) (quantity item)"

definition draft_line :: "item_req \<Rightarrow> draft_item" where
  "draft_line item =
     \<lparr>d_stockItemId = stockItemId item, d_quantity = quantity item,
      d_unitPrice = unit_price item, d_totalPrice = line_total item\<rparr>"

text \<open>
  A requested line passes intake when its stock item exists and the requested quantity
  does not exceed the quantity on hand; otherwise it is refused with \<open>line_error\<close>.
\<close>

definition line_ok :: "stock_table \<Rightarrow> item_req \<Rightarrow> bool" where
  "line_ok st item =
     (case st (stockItemId item) of
        None \<Rightarrow> False
      | Some stockItem \<Rightarrow> \<not> int_lt_num (si_quantity stockItem) (quantity item))"

definition line_error :: "stock_table \<Rightarrow> item_req \<Rightarrow> error" where
  "line_error st item =
     (case st (stockItemId item) of
        None \<Rightarrow> StockNotFound (stockItemId item)
      | Some stockItem \<Rightarrow> InsufficientStock (si_name stockItem))"

text \<open>Customer name, contact or item list absent or empty.\<close>

definition missing_fields :: "order_body \<Rightarrow> bool" where
  "missing_fields body =
     (falsy (body_customerName body) \<or> falsy (body_customerContact body) \<or>
      body_items body = None \<or> body_items body = Some [])"

text \<open>The quantity of one stock item that the lines of an order request together.\<close>

definition requested :: "ident \<Rightarrow> order_item list \<Rightarrow> int" where
  "requested sid lines =
     sum_list (map oi_quantity (filter (\<lambda>l. oi_stockItemId l = sid) lines))"

text \<open>Every line item of an order has a quantity of at least 1.\<close>

definition quantities_positive :: "order \<Rightarrow> bool" where
  "quantities_positive ord = list_all (\<lambda>l. 1 \<le> oi_quantity l) (orderItems ord)"

section \<open>The scenarios of the specification\<close>

text \<open>
  One stock item, Plywood, with \<open>n\<close> pieces on hand and no order yet; and a request of
  one customer for Plywood at price 100, one line for each quantity of the list.
\<close>

definition shop :: "int \<Rightarrow> state" where
  "shop n =
     \<lparr>stock = [''s1'' \<mapsto> \<lparr>si_name = ''Plywood'', si_quantity = n, si_buyingPrice = Num 80,
                          si_sellingPrice = Some (Num 100)\<rparr>],
      orders = Map.empty\<rparr>"

definition plywood_order :: "int list \<Rightarrow> order_body" where
  "plywood_order qs =
     \<lparr>body_customerName = Some ''Abebe'', body_customerContact = Some ''0911000000'',
      body_items =
        Some (map (\<lambda>q. \<lparr>stockItemId = ''s1'', quantity = Num (of_int q),
                         sellingPrice = Some (Num 100)\<rparr>) qs)\<rparr>"

text \<open>The line and the order that a request for \<open>q\<close> pieces of Plywood leaves.\<close>

definition plywood_line :: "int \<Rightarrow> order_item" where
  "plywood_line q =
     \<lparr>oi_stockItemId = ''s1'', oi_quantity = q, oi_unitPrice = Num 100,
      oi_totalPrice = Num (100 * of_int q)\<rparr>"

definition plywood_pending :: "int \<Rightarrow> order" where
  "plywood_pending q =
     \<lparr>customerName = ''Abebe'', customerContact = ''0911000000'', status = PENDING,
      totalAmount = Num (100 * of_int q), rejectionReason = None, salesRepId = ''rep'',
      orderItems = [plywood_line q]\<rparr>"

text \<open>
  The same request with one line of any quantity at any price; two persistence layers,
  one that refuses a quantity that is not an integer and one that cuts it to the integer
  below; and the shop with two pending orders of 2 pieces each.
\<close>

definition plywood_at :: "jsnum \<Rightarrow> jsnum \<Rightarrow> order_body" where
  "plywood_at price q =
     \<lparr>body_customerName = Some ''Abebe'', body_customerContact = Some ''0911000000'',
      body_items = Some [\<lparr>stockItemId = ''s1'', quantity = q, sellingPrice = Some price\<rparr>]\<rparr>"

definition refusing :: int_column where
  "refusing r = None"

definition cutting :: int_column where
  "cutting r = Some \<lfloor>r\<rfloor>"

definition two_orders :: "int_column \<Rightarrow> state" where
  "two_orders coerce =
     run coerce [CreateOrder ''o1'' ''rep'' (plywood_order [2]),
                 CreateOrder ''o2'' ''rep'' (plywood_order [2])] (shop 3)"

section \<open>Lemmas about numbers\<close>

text \<open>
  The exponent is the right one, the rounded value is a multiple of the quantum at most
  half a quantum away, whole numbers below \<open>2 ^ 53\<close> are doubles (so their products and
  sums are exact as long as they stay below \<open>2 ^ 53\<close>), and everything from \<open>2 ^ 1024\<close>
  on is infinity.
\<close>

lemmas number_defs =
  round64_def nearest_def quantum_def exponent_def pow2_def round_half_even_def
  bit_length.simps

lemma bit_length_unique:
  "2 ^ k \<le> n \<Longrightarrow> n < 2 ^ Suc k \<Longrightarrow> bit_length n = int k + 1"
proof (induction k arbitrary: n)
  case 0
  then have "n = 1" by simp
  then show ?case by (simp add: bit_length.simps)
next
  case (Suc k)
  have "(0::int) < 2 ^ Suc k" by simp
  with Suc.prems(1) have pos: "0 < n" by linarith
  from Suc.prems have "2 ^ k \<le> n div 2" "n div 2 < 2 ^ Suc k" by auto
  from Suc.IH [OF this] pos show ?case
    by (subst bit_length.simps) simp
qed

lemma bit_length_bounds:
  "0 < n \<Longrightarrow>
   1 \<le> bit_length n \<and> 2 ^ nat (bit_length n - 1) \<le> n \<and> n < 2 ^ nat (bit_length n)"
proof (induction n rule: bit_length.induct)
  case (1 n)
  show ?case
  proof (cases "n = 1")
    case True
    then show ?thesis by (simp add: bit_length.simps)
  next
    case False
    with "1.prems" have half: "0 < n div 2" by auto
    with "1.IH" "1.prems" have
      ih: "1 \<le> bit_length (n div 2)"
          "2 ^ nat (bit_length (n div 2) - 1) \<le> n div 2"
          "n div 2 < 2 ^ nat (bit_length (n div 2))"
      by simp_all
    from "1.prems" have eq: "bit_length n = 1 + bit_length (n div 2)"
      by (subst bit_length.simps) simp
    from ih(1) have p: "nat (bit_length (n div 2)) = Suc (nat (bit_length (n div 2) - 1))"
      by simp
    from ih(2) have "2 * 2 ^ nat (bit_length (n div 2) - 1) \<le> n" by linarith
    moreover from ih(3) have "n < 2 * 2 ^ nat (bit_length (n div 2))" by linarith
    ultimately show ?thesis using ih(1) eq p
      by (simp add: nat_add_distrib)
  qed
qed

lemma exponent_ge_one:
  assumes "2 ^ k \<le> a" "a < 2 ^ Suc k"
  shows "exponent a = int k"
proof -
  have "(1::real) \<le> 2 ^ k" by simp
  with assms(1) have one: "1 \<le> a" by linarith
  have "(2::int) ^ k \<le> \<lfloor>a\<rfloor>"
    using assms(1) by (simp add: le_floor_iff)
  moreover have "\<lfloor>a\<rfloor> < (2::int) ^ Suc k"
    using assms(2) by (simp add: floor_less_iff)
  ultimately have "bit_length \<lfloor>a\<rfloor> = int k + 1"
    by (rule bit_length_unique)
  with one show ?thesis by (simp add: exponent_def)
qed

lemma exponent_lt_one:
  assumes "1 / 2 ^ Suc k \<le> a" "a < 1 / 2 ^ k"
  shows "exponent a = - int (Suc k)"
proof -
  have "(0::real) < 1 / 2 ^ Suc k" by simp
  with assms(1) have pos: "0 < a" by linarith
  have "(1::real) / 2 ^ k \<le> 1" by (simp add: divide_le_eq)
  with assms(2) have lt1: "\<not> 1 \<le> a" by linarith
  from assms(2) pos have "2 ^ k < 1 / a"
    by (simp add: field_simps)
  then have lo: "(2::int) ^ k \<le> \<lceil>1 / a\<rceil> - 1"
    by (simp add: less_ceiling_iff)
  from assms(1) pos have "1 / a \<le> 2 ^ Suc k"
    by (simp add: field_simps)
  then have "\<lceil>1 / a\<rceil> \<le> (2::int) ^ Suc k"
    by (simp add: ceiling_le_iff)
  then have hi: "\<lceil>1 / a\<rceil> - 1 < (2::int) ^ Suc k" by simp
  from bit_length_unique [OF lo hi] lt1 show ?thesis by (simp add: exponent_def)
qed

lemma exponent_bounds:
  assumes "1 \<le> a"
  shows "0 \<le> exponent a \<and> 2 ^ nat (exponent a) \<le> a \<and> a < 2 ^ Suc (nat (exponent a))"
proof -
  from assms have pos: "0 < \<lfloor>a\<rfloor>" by simp
  from bit_length_bounds [OF pos] have
    b: "1 \<le> bit_length \<lfloor>a\<rfloor>" "2 ^ nat (bit_length \<lfloor>a\<rfloor> - 1) \<le> \<lfloor>a\<rfloor>"
       "\<lfloor>a\<rfloor> < 2 ^ nat (bit_length \<lfloor>a\<rfloor>)"
    by simp_all
  from assms have e: "exponent a = bit_length \<lfloor>a\<rfloor> - 1" by (simp add: exponent_def)
  from b(1) have s: "Suc (nat (bit_length \<lfloor>a\<rfloor> - 1)) = nat (bit_length \<lfloor>a\<rfloor>)" by simp
  from b(2) have "(2::real) ^ nat (bit_length \<lfloor>a\<rfloor> - 1) \<le> a"
    by (metis le_floor_iff of_int_numeral of_int_power)
  moreover from b(3) have "a < (2::real) ^ nat (bit_length \<lfloor>a\<rfloor>)"
    by (metis floor_less_iff of_int_numeral of_int_power)
  ultimately show ?thesis using b(1) e s by simp
qed

lemma round_half_even_of_int: "round_half_even (of_int m) = m"
  by (simp add: round_half_even_def)

lemma round_half_even_ge: "of_int m \<le> x \<Longrightarrow> m \<le> round_half_even x"
proof -
  assume "of_int m \<le> x"
  then have "m \<le> \<lfloor>x\<rfloor>" by (simp add: le_floor_iff)
  then show ?thesis by (simp add: round_half_even_def)
qed

lemma round_half_even_error: "\<bar>of_int (round_half_even x) - x\<bar> \<le> 1 / 2"
proof -
  have "of_int \<lfloor>x\<rfloor> \<le> x" "x < of_int \<lfloor>x\<rfloor> + 1" by linarith+
  then show ?thesis by (auto simp: round_half_even_def)
qed

lemma quantum_pos: "0 < quantum a"
  by (simp add: quantum_def pow2_def)

lemma nearest_error: "\<bar>nearest a - a\<bar> \<le> quantum a / 2"
proof -
  have "nearest a - a = (of_int (round_half_even (a / quantum a)) - a / quantum a) * quantum a"
    using quantum_pos [of a] by (simp add: nearest_def field_simps)
  then have "\<bar>nearest a - a\<bar> =
      \<bar>of_int (round_half_even (a / quantum a)) - a / quantum a\<bar> * quantum a"
    using quantum_pos [of a] by (simp add: abs_mult)
  also have "\<dots> \<le> 1 / 2 * quantum a"
    using round_half_even_error [of "a / quantum a"] quantum_pos [of a]
    by (intro mult_right_mono) simp_all
  finally show ?thesis by simp
qed

lemma round64_overflow:
  assumes "2 ^ 1024 \<le> x"
  shows "round64 x = PInf"
proof -
  have big: "(1::real) \<le> 2 ^ 1024" by simp
  with assms have one: "1 \<le> x" and pos: "0 < x" by linarith+
  then have ax: "\<bar>x\<bar> = x" by simp
  from exponent_bounds [OF one] obtain k where
    k: "exponent x = int k" "2 ^ k \<le> x" "x < 2 ^ Suc k"
    by (metis nat_0_le)
  have "1024 \<le> k"
  proof (rule ccontr)
    assume "\<not> 1024 \<le> k"
    then have "Suc k \<le> 1024" by simp
    then have "(2::real) ^ Suc k \<le> 2 ^ 1024"
      by (intro power_increasing) simp_all
    with k(3) assms show False by linarith
  qed
  then have q: "quantum x = 2 ^ (k - 52)"
    by (simp add: quantum_def k(1) pow2_def nat_diff_distrib max_def)
  from \<open>1024 \<le> k\<close> have split: "(2::real) ^ k = 2 ^ 52 * 2 ^ (k - 52)"
    using power_add [of "2::real" 52 "k - 52"] by simp
  with k(2) have "of_int (2 ^ 52) \<le> x / quantum x"
    by (simp add: q field_simps)
  then have "2 ^ 52 \<le> round_half_even (x / quantum x)"
    by (rule round_half_even_ge)
  then have "(2::real) ^ 52 \<le> of_int (round_half_even (x / quantum x))"
    by (metis of_int_le_iff of_int_numeral of_int_power)
  then have "(2::real) ^ 52 * 2 ^ (k - 52) \<le> nearest x"
    by (simp add: nearest_def q)
  with split have "(2::real) ^ k \<le> nearest x" by simp
  moreover from \<open>1024 \<le> k\<close> have "(2::real) ^ 1024 \<le> 2 ^ k"
    by (intro power_increasing) simp_all
  ultimately have "pow2 1024 \<le> nearest x" by (simp add: pow2_def)
  with pos ax show ?thesis by (simp add: round64_def)
qed

lemma round64_of_int:
  assumes "\<bar>n\<bar> < 2 ^ 53"
  shows "round64 (of_int n) = Num (of_int n)"
proof (cases "n = 0")
  case True
  then show ?thesis by (simp add: round64_def)
next
  case False
  define a :: real where "a = of_int \<bar>n\<bar>"
  from False have "1 \<le> \<bar>n\<bar>" by linarith
  then have one: "1 \<le> a" unfolding a_def
    by (metis of_int_1 of_int_le_iff)
  from assms have small: "a < 2 ^ 53" unfolding a_def
    by (metis of_int_less_iff of_int_numeral of_int_power)
  from exponent_bounds [OF one] obtain k where
    k: "exponent a = int k" "2 ^ k \<le> a" "a < 2 ^ Suc k"
    by (metis nat_0_le)
  have k52: "k \<le> 52"
  proof (rule ccontr)
    assume "\<not> k \<le> 52"
    then have "53 \<le> k" by simp
    then have "(2::real) ^ 53 \<le> 2 ^ k"
      by (intro power_increasing) simp_all
    with k(2) small show False by linarith
  qed
  then have q: "quantum a = 1 / 2 ^ (52 - k)"
    by (auto simp: quantum_def k(1) pow2_def max_def nat_diff_distrib)
  have "a / quantum a = a * 2 ^ (52 - k)"
    by (simp add: q)
  also have "\<dots> = of_int (\<bar>n\<bar> * 2 ^ (52 - k))"
    by (simp add: a_def)
  finally have "round_half_even (a / quantum a) = \<bar>n\<bar> * 2 ^ (52 - k)"
    by (simp only: round_half_even_of_int)
  then have "nearest a = of_int (\<bar>n\<bar> * 2 ^ (52 - k)) * (1 / 2 ^ (52 - k))"
    by (simp only: nearest_def q)
  also have "\<dots> = a"
    by (simp add: a_def)
  finally have near: "nearest a = a" .
  have "(2::real) ^ 53 \<le> 2 ^ 1024"
    by (intro power_increasing) simp_all
  with small have fin: "\<not> pow2 1024 \<le> a" by (simp add: pow2_def)
  have abs: "\<bar>real_of_int n\<bar> = a" by (simp add: a_def)
  from False have "real_of_int n \<noteq> 0" by simp
  with near fin abs have "round64 (of_int n) = Num (if 0 < real_of_int n then a else - a)"
    by (simp add: round64_def)
  then show ?thesis
    by (cases "0 < n") (simp_all add: a_def)
qed

lemma js_mul_of_int:
  "\<bar>p * q\<bar> < 2 ^ 53 \<Longrightarrow>
   js_mul (Num (of_int p)) (Num (of_int q)) = Num (of_int (p * q))"
  using round64_of_int [of "p * q"] by simp

lemma js_add_of_int:
  "\<bar>p + q\<bar> < 2 ^ 53 \<Longrightarrow>
   js_add (Num (of_int p)) (Num (of_int q)) = Num (of_int (p + q))"
  using round64_of_int [of "p + q"] by simp

section \<open>Lemmas about the handlers\<close>

lemma validate_items_Cons:
  "validate_items st (item # rest) a acc =
     (if line_ok st item
      then validate_items st rest (js_add a (line_total item)) (acc @ [draft_line item])
      else Inl (line_error st item))"
  by (simp add: line_ok_def line_error_def draft_line_def line_total_def unit_price_def Let_def
      split: option.splits)

lemma validate_items_ok_prefix:
  "list_all (line_ok st) pre \<Longrightarrow>
   validate_items st (pre @ rest) a acc =
   validate_items st rest (foldl js_add a (map line_total pre)) (acc @ map draft_line pre)"
  by (induction pre arbitrary: a acc)
     (simp_all add: validate_items_Cons del: validate_items.simps(2))

lemma validate_items_Inr:
  "validate_items st its a acc = Inr (a', ls) \<Longrightarrow>
   list_all (line_ok st) its \<and> ls = acc @ map draft_line its \<and>
   a' = foldl js_add a (map line_total its)"
proof (induction its arbitrary: a acc)
  case Nil
  then show ?case by simp
next
  case (Cons x its)
  from Cons.prems have ok: "line_ok st x"
    by (simp add: validate_items_Cons del: validate_items.simps(2) split: if_splits)
  with Cons.prems have
    "validate_items st its (js_add a (line_total x)) (acc @ [draft_line x]) = Inr (a', ls)"
    by (simp add: validate_items_Cons del: validate_items.simps(2))
  from Cons.IH [OF this] ok show ?case by simp
qed

lemma validate_items_Inl:
  "validate_items st its a acc = Inl e \<Longrightarrow>
   \<exists>pre item post. its = pre @ item # post \<and> list_all (line_ok st) pre \<and>
     \<not> line_ok st item \<and> e = line_error st item"
proof (induction its arbitrary: a acc)
  case Nil
  then show ?case by simp
next
  case (Cons x its)
  show ?case
  proof (cases "line_ok st x")
    case False
    with Cons.prems have "e = line_error st x"
      by (simp add: validate_items_Cons del: validate_items.simps(2))
    with False have "x # its = [] @ x # its \<and> list_all (line_ok st) [] \<and>
      \<not> line_ok st x \<and> e = line_error st x" by simp
    then show ?thesis by blast
  next
    case True
    with Cons.prems have
      "validate_items st its (js_add a (line_total x)) (acc @ [draft_line x]) = Inl e"
      by (simp add: validate_items_Cons del: validate_items.simps(2))
    from Cons.IH [OF this] obtain pre item post where
      "its = pre @ item # post" "list_all (line_ok st) pre" "\<not> line_ok st item"
      "e = line_error st item" by blast
    with True have "x # its = (x # pre) @ item # post \<and> list_all (line_ok st) (x # pre) \<and>
      \<not> line_ok st item \<and> e = line_error st item" by simp
    then show ?thesis by blast
  qed
qed

lemma validate_items_first_bad:
  "list_all (line_ok st) pre \<Longrightarrow> \<not> line_ok st item \<Longrightarrow>
   validate_items st (pre @ item # post) a acc = Inl (line_error st item)"
  by (simp add: validate_items_ok_prefix validate_items_Cons del: validate_items.simps(2))


lemma to_int_column_int4:
  "to_int_column coerce v = Some n \<Longrightarrow> int4 n"
  by (cases v) (auto split: if_splits option.splits)

lemma create_order_missing:
  "missing_fields body \<Longrightarrow> create_order coerce new_id user_id body s = (Inl MissingFields, s)"
  by (auto simp: missing_fields_def falsy_def create_order_def split: option.splits)

lemma create_order_Inl_state:
  "fst (create_order coerce new_id user_id body s) = Inl e \<Longrightarrow>
   snd (create_order coerce new_id user_id body s) = s"
  by (auto simp: create_order_def split: option.splits sum.splits prod.splits if_splits)

lemma create_order_Inl_cases:
  assumes "fst (create_order coerce new_id user_id body s) = Inl e"
  shows "(e = MissingFields \<and> missing_fields body) \<or>
         (\<not> missing_fields body \<and> e = InternalServerError) \<or>
         (\<not> missing_fields body \<and>
          (\<exists>pre item post. body_items body = Some (pre @ item # post) \<and>
             list_all (line_ok (stock s)) pre \<and> \<not> line_ok (stock s) item \<and>
             e = line_error (stock s) item))"
proof (cases "missing_fields body")
  case True
  with assms show ?thesis by (simp add: create_order_missing)
next
  case False
  then obtain items where its: "body_items body = Some items"
    by (auto simp: missing_fields_def)
  show ?thesis
  proof (cases "validate_items (stock s) items (Num 0) []")
    case (Inl e')
    with its assms False have "e = e'"
      by (auto simp: create_order_def missing_fields_def falsy_def
          split: option.splits if_splits)
    with validate_items_Inl [OF Inl] its False show ?thesis by auto
  next
    case (Inr r)
    with its assms False have "e = InternalServerError"
      by (auto simp: create_order_def missing_fields_def falsy_def
          split: option.splits if_splits prod.splits sum.splits)
    with False show ?thesis by simp
  qed
qed

lemma create_order_first_bad:
  assumes "\<not> missing_fields body" "body_items body = Some (pre @ item # post)"
    "list_all (line_ok (stock s)) pre" "\<not> line_ok (stock s) item"
  shows "create_order coerce new_id user_id body s = (Inl (line_error (stock s) item), s)"
  using assms(1,2) validate_items_first_bad [OF assms(3,4), of post "Num 0" "[]"]
  by (auto simp: create_order_def missing_fields_def falsy_def split: option.splits)

lemma create_order_Inr:
  assumes "create_order coerce new_id user_id body s = (Inr ord, s')"
  shows "\<exists>items. body_items body = Some items \<and> list_all (line_ok (stock s)) items \<and>
           store_items coerce (map draft_line items) = Some (orderItems ord) \<and>
           totalAmount ord = foldl js_add (Num 0) (map line_total items) \<and>
           is_finite (totalAmount ord) \<and>
           status ord = PENDING \<and> orders s new_id = None \<and>
           s' = s\<lparr>orders := (orders s)(new_id \<mapsto> ord)\<rparr>"
proof -
  from assms obtain items amount drafts cname contact where
    its: "body_items body = Some items" and
    v: "validate_items (stock s) items (Num 0) [] = Inr (amount, drafts)" and
    i: "insert_order coerce new_id
          \<lparr>new_customerName = cname, new_customerContact = contact,
           new_totalAmount = amount, new_salesRepId = user_id,
           new_orderItems = drafts\<rparr> s = Inr (ord, s')"
    by (auto simp: create_order_def
        split: option.splits if_splits prod.splits sum.splits)
  from validate_items_Inr [OF v] have
    p: "list_all (line_ok (stock s)) items" "drafts = map draft_line items"
       "amount = foldl js_add (Num 0) (map line_total items)" by simp_all
  from i have
    "orders s new_id = None" "is_finite amount"
    "store_items coerce drafts = Some (orderItems ord)"
    "totalAmount ord = amount" "status ord = PENDING"
    "s' = s\<lparr>orders := (orders s)(new_id \<mapsto> ord)\<rparr>"
    by (auto simp: insert_order_def split: option.splits if_splits)
  with its p show ?thesis by simp
qed

lemma check_stock_None:
  "check_stock st lines = None \<Longrightarrow>
   list_all (\<lambda>l. case st (oi_stockItemId l) of None \<Rightarrow> False
                  | Some stockItem \<Rightarrow> oi_quantity l \<le> si_quantity stockItem) lines"
  by (induction lines) (auto split: option.splits if_splits)

lemma check_stock_passes:
  "list_all (\<lambda>l. case st (oi_stockItemId l) of None \<Rightarrow> False
                  | Some stockItem \<Rightarrow> oi_quantity l \<le> si_quantity stockItem) lines \<Longrightarrow>
   check_stock st lines = None"
  by (induction lines) (auto split: option.splits)

lemma deduct_stock_quantities:
  "deduct_stock fault lines st = Inr (st', fault') \<Longrightarrow>
   st' sid =
     map_option (\<lambda>stockItem. stockItem\<lparr>si_quantity := si_quantity stockItem - requested sid lines\<rparr>)
       (st sid)"
proof (induction lines arbitrary: st fault)
  case Nil
  then show ?case by (cases "st sid") (simp_all add: requested_def)
next
  case (Cons l lines)
  from Cons.prems obtain stockItem where
    row: "st (oi_stockItemId l) = Some stockItem" and
    rest: "deduct_stock (map_option (\<lambda>k. k - 1) fault) lines
             (st(oi_stockItemId l \<mapsto>
                stockItem\<lparr>si_quantity := si_quantity stockItem - oi_quantity l\<rparr>)) =
           Inr (st', fault')"
    by (auto simp: Let_def split: if_splits option.splits)
  from Cons.IH [OF rest] row show ?case
    by (cases "st sid") (auto simp: requested_def algebra_simps)
qed

lemma deduct_stock_succeeds:
  "distinct (map oi_stockItemId lines) \<Longrightarrow>
   list_all (\<lambda>l. case st (oi_stockItemId l) of None \<Rightarrow> False
                  | Some stockItem \<Rightarrow> int4 (si_quantity stockItem - oi_quantity l)) lines \<Longrightarrow>
   \<exists>st'. deduct_stock None lines st = Inr (st', None)"
proof (induction lines arbitrary: st)
  case Nil
  then show ?case by simp
next
  case (Cons l lines)
  from Cons.prems(2) obtain stockItem where
    row: "st (oi_stockItemId l) = Some stockItem"
         "int4 (si_quantity stockItem - oi_quantity l)"
    by (auto split: option.splits)
  let ?st = "st(oi_stockItemId l \<mapsto>
               stockItem\<lparr>si_quantity := si_quantity stockItem - oi_quantity l\<rparr>)"
  from Cons.prems(1) have other: "oi_stockItemId x \<noteq> oi_stockItemId l" if "x \<in> set lines" for x
    using that by (metis distinct.simps(2) imageI list.simps(9) set_map)
  from Cons.prems(2) have "list_all (\<lambda>l. case ?st (oi_stockItemId l) of None \<Rightarrow> False
                  | Some stockItem \<Rightarrow> int4 (si_quantity stockItem - oi_quantity l)) lines"
    by (auto simp: list_all_iff other)
  with Cons.prems(1) have "\<exists>st'. deduct_stock None lines ?st = Inr (st', None)"
    by (intro Cons.IH) simp_all
  with row show ?case by simp
qed

lemma requested_distinct:
  "distinct (map oi_stockItemId lines) \<Longrightarrow> l \<in> set lines \<Longrightarrow>
   requested (oi_stockItemId l) lines = oi_quantity l"
proof (induction lines)
  case Nil
  then show ?case by simp
next
  case (Cons x lines)
  have none: "filter (\<lambda>y. oi_stockItemId y = k) lines = []" if "k \<notin> oi_stockItemId ` set lines" for k
    using that by (induction lines) auto
  show ?case
  proof (cases "l = x")
    case True
    with Cons.prems(1) none [of "oi_stockItemId x"] show ?thesis
      by (simp add: requested_def)
  next
    case False
    with Cons.prems have mem: "l \<in> set lines" by simp
    have "oi_stockItemId l \<noteq> oi_stockItemId x"
    proof
      assume "oi_stockItemId l = oi_stockItemId x"
      with mem have "oi_stockItemId x \<in> oi_stockItemId ` set lines" by (metis imageI)
      with Cons.prems(1) show False by simp
    qed
    with mem Cons show ?thesis by (simp add: requested_def)
  qed
qed

lemma approve_check_Inr:
  "approve_check oid s = Inr ord \<Longrightarrow>
   orders s oid = Some ord \<and> status ord = PENDING \<and>
   check_stock (stock s) (orderItems ord) = None"
  by (auto simp: approve_check_def split: option.splits if_splits)

lemma approve_commit_Inl:
  "approve_commit fault oid lines s = (Inl e, s') \<Longrightarrow> s' = s"
  by (auto simp: approve_commit_def transaction_def split: sum.splits prod.splits)

lemma approve_commit_Inr:
  assumes "approve_commit fault oid lines s = (Inr r, s')"
  shows "\<exists>ord fault'. orders s oid = Some ord \<and>
           deduct_stock fault lines (stock s) = Inr (stock s', fault') \<and>
           orders s' = (orders s)(oid \<mapsto> ord\<lparr>status := APPROVED\<rparr>) \<and>
           r = Some (ord\<lparr>status := APPROVED\<rparr>)"
proof -
  from assms have t: "settlement fault oid lines s = Inr s'" and r: "r = orders s' oid"
    by (auto simp: approve_commit_def transaction_def split: sum.splits prod.splits)
  from t obtain ord st fault' where
    "orders s oid = Some ord"
    "deduct_stock fault lines (stock s) = Inr (st, fault')"
    "s' = s\<lparr>stock := st, orders := (orders s)(oid \<mapsto> ord\<lparr>status := APPROVED\<rparr>)\<rparr>"
    by (auto simp: settlement_def split: sum.splits prod.splits if_splits option.splits)
  with r show ?thesis by simp
qed

lemma approve_order_Inl:
  "approve_order fault oid s = (Inl e, s') \<Longrightarrow> s' = s"
  by (auto simp: approve_order_def dest: approve_commit_Inl split: sum.splits)

lemma approve_order_Inr:
  assumes "approve_order fault oid s = (Inr r, s')"
  shows "\<exists>ord fault'. orders s oid = Some ord \<and> status ord = PENDING \<and>
           check_stock (stock s) (orderItems ord) = None \<and>
           deduct_stock fault (orderItems ord) (stock s) = Inr (stock s', fault') \<and>
           orders s' = (orders s)(oid \<mapsto> ord\<lparr>status := APPROVED\<rparr>) \<and>
           r = Some (ord\<lparr>status := APPROVED\<rparr>)"
proof -
  from assms obtain ord where
    c: "approve_check oid s = Inr ord" and
    m: "approve_commit fault oid (orderItems ord) s = (Inr r, s')"
    by (auto simp: approve_order_def split: sum.splits)
  from approve_check_Inr [OF c] approve_commit_Inr [OF m] show ?thesis by auto
qed

lemma approve_order_succeeds:
  assumes "orders s oid = Some ord" "status ord = PENDING"
    "distinct (map oi_stockItemId (orderItems ord))"
    "list_all (\<lambda>l. case stock s (oi_stockItemId l) of None \<Rightarrow> False
        | Some stockItem \<Rightarrow>
            oi_quantity l \<le> si_quantity stockItem \<and>
            int4 (si_quantity stockItem - oi_quantity l)) (orderItems ord)"
  shows "\<exists>s'. approve_order None oid s = (Inr (Some (ord\<lparr>status := APPROVED\<rparr>)), s')"
proof -
  from assms(4) have
    "list_all (\<lambda>l. case stock s (oi_stockItemId l) of None \<Rightarrow> False
        | Some stockItem \<Rightarrow> oi_quantity l \<le> si_quantity stockItem) (orderItems ord)"
    "list_all (\<lambda>l. case stock s (oi_stockItemId l) of None \<Rightarrow> False
        | Some stockItem \<Rightarrow> int4 (si_quantity stockItem - oi_quantity l)) (orderItems ord)"
    by (auto simp: list_all_iff split: option.splits)
  then have c: "check_stock (stock s) (orderItems ord) = None"
    and "\<exists>st'. deduct_stock None (orderItems ord) (stock s) = Inr (st', None)"
    using assms(3) by (simp_all add: check_stock_passes deduct_stock_succeeds)
  then obtain st' where "deduct_stock None (orderItems ord) (stock s) = Inr (st', None)"
    by blast
  with assms(1,2) c show ?thesis
    by (simp add: approve_order_def approve_check_def approve_commit_def transaction_def
        settlement_def)
qed







text \<open>
  What the scenarios compute: products and sums of small numbers are exact, and a
  request for Plywood leaves the pending order \<open>plywood_pending\<close>.
\<close>

lemma round64_examples:
  "round64 0 = Num 0" "round64 100 = Num 100" "round64 200 = Num 200"
  "round64 400 = Num 400" "round64 (- 200) = Num (- 200)" "round64 150 = Num 150"
  using round64_of_int [of 0] round64_of_int [of 100] round64_of_int [of 200]
    round64_of_int [of 400] round64_of_int [of "- 200"] round64_of_int [of 150]
  by simp_all

lemma round64_inexact:
  "round64 27021597764222973 = Num 27021597764222972"
  "round64 27021597764222972 = Num 27021597764222972"
  by (simp_all add: number_defs)

lemmas scenario_defs =
  shop_def plywood_order_def plywood_pending_def plywood_line_def plywood_at_def
  two_orders_def refusing_def cutting_def create_order_def
  insert_order_def store_item_def approve_order_def approve_check_def approve_commit_def
  reject_order_def transaction_def settlement_def int4_def falsy_def falsy_num_def
  round64_examples round64_inexact round64_overflow Let_def

lemma create_plywood:
  "create_order coerce ''o1'' ''rep'' (plywood_order [4]) (shop 10) =
     (Inr (plywood_pending 4), (shop 10)\<lparr>orders := [''o1'' \<mapsto> plywood_pending 4]\<rparr>)"
  by (simp add: scenario_defs)

section \<open>The claims\<close>

text \<open>
  C1. Settlement runs the re-check, the decrements and the status flip as one unit. The
  code breaks this: the order is read and re-checked before the transaction and outside
  it, so when two approvals have both passed their re-check before either transaction
  runs, both transactions go through. With 3 pieces on hand and two pending orders of 2
  pieces each, both orders end APPROVED and the stock ends at -1; run one after the
  other, the second approval is refused for insufficient stock. In the same way one
  order whose re-check ran twice is settled twice: 4 pieces are deducted twice from 10.
\<close>

theorem approve_order_race:
  "approve_check ''o1'' (two_orders coerce) = Inr (plywood_pending 2) \<and>
   approve_check ''o2'' (two_orders coerce) = Inr (plywood_pending 2) \<and>
   map_option status
     (orders (run coerce [ApproveCommit None ''o1'' (orderItems (plywood_pending 2)),
                          ApproveCommit None ''o2'' (orderItems (plywood_pending 2))]
                (two_orders coerce)) ''o1'') = Some APPROVED \<and>
   map_option status
     (orders (run coerce [ApproveCommit None ''o1'' (orderItems (plywood_pending 2)),
                          ApproveCommit None ''o2'' (orderItems (plywood_pending 2))]
                (two_orders coerce)) ''o2'') = Some APPROVED \<and>
   map_option si_quantity
     (stock (run coerce [ApproveCommit None ''o1'' (orderItems (plywood_pending 2)),
                         ApproveCommit None ''o2'' (orderItems (plywood_pending 2))]
               (two_orders coerce)) ''s1'') = Some (- 1) \<and>
   fst (approve_order None ''o2'' (run coerce [ApproveOrder None ''o1''] (two_orders coerce))) =
     Inl (InsufficientStock ''Plywood'') \<and>
   approve_check ''o1'' (snd (create_order coerce ''o1'' ''rep'' (plywood_order [4]) (shop 10))) =
     Inr (plywood_pending 4) \<and>
   map_option si_quantity
     (stock (run coerce [ApproveCommit None ''o1'' (orderItems (plywood_pending 4)),
                         ApproveCommit None ''o1'' (orderItems (plywood_pending 4))]
               (snd (create_order coerce ''o1'' ''rep'' (plywood_order [4]) (shop 10)))) ''s1'') =
     Some 2"
  by (simp add: scenario_defs)

text \<open>
  C2. Stock quantities never go negative after an approval. The code breaks this: each
  line is re-checked on its own against the quantity on hand, so an order with two lines
  of 2 pieces of an item with 3 pieces on hand is created and approved, and the item
  ends at -1.
\<close>

theorem approve_order_negative_stock:
  "map_option si_quantity (stock (shop 3) ''s1'') = Some 3 \<and>
   map_option status
     (orders (run coerce [CreateOrder ''o1'' ''rep'' (plywood_order [2, 2]),
                          ApproveOrder None ''o1''] (shop 3)) ''o1'') = Some APPROVED \<and>
   map_option si_quantity
     (stock (run coerce [CreateOrder ''o1'' ''rep'' (plywood_order [2, 2]),
                         ApproveOrder None ''o1''] (shop 3)) ''s1'') = Some (- 1)"
  by (simp add: scenario_defs)

text \<open>
  C3. An order in a terminal state admits no further transition. The code breaks this for
  reject, which never reads the order's status: rejecting the approved order of scenario
  A succeeds, turns it into REJECTED and stores the reason, while the stock stays
  deducted. (Approve does check the status.)
\<close>

theorem reject_order_after_approval:
  "map_option status
     (orders (run coerce [CreateOrder ''o1'' ''rep'' (plywood_order [4]),
                          ApproveOrder None ''o1''] (shop 10)) ''o1'') = Some APPROVED \<and>
   map_option (\<lambda>ord. (status ord, rejectionReason ord))
     (orders (run coerce [CreateOrder ''o1'' ''rep'' (plywood_order [4]),
                          ApproveOrder None ''o1'',
                          RejectOrder ''o1'' (Some ''late'')] (shop 10)) ''o1'') =
     Some (REJECTED, Some ''late'') \<and>
   map_option si_quantity
     (stock (run coerce [CreateOrder ''o1'' ''rep'' (plywood_order [4]),
                         ApproveOrder None ''o1'',
                         RejectOrder ''o1'' (Some ''late'')] (shop 10)) ''s1'') = Some 6 \<and>
   fst (approve_order None ''o1''
          (run coerce [CreateOrder ''o1'' ''rep'' (plywood_order [4]),
                       ApproveOrder None ''o1''] (shop 10))) = Inl OrderNotPending"
  by (simp add: scenario_defs)

text \<open>
  C4. Intake answers 400 for missing fields exactly when the customer name, the contact
  or the item list is absent or empty. Otherwise the lines are checked in order, and the
  first line that does not pass decides the answer: 400 stock item not found when its
  stock item does not exist, 400 insufficient stock exactly when the requested quantity
  is strictly greater than the quantity on hand. Whenever intake answers an error, the
  state (so the order table) is unchanged.
\<close>

theorem create_order_validation:
  "(fst (create_order coerce new_id user_id body s) = Inl MissingFields \<longleftrightarrow>
      missing_fields body) \<and>
   (fst (create_order coerce new_id user_id body s) = Inl (StockNotFound sid) \<longleftrightarrow>
      \<not> missing_fields body \<and>
      (\<exists>pre item post. body_items body = Some (pre @ item # post) \<and>
         list_all (line_ok (stock s)) pre \<and>
         stock s (stockItemId item) = None \<and> stockItemId item = sid)) \<and>
   (fst (create_order coerce new_id user_id body s) = Inl (InsufficientStock nm) \<longleftrightarrow>
      \<not> missing_fields body \<and>
      (\<exists>pre item post stockItem. body_items body = Some (pre @ item # post) \<and>
         list_all (line_ok (stock s)) pre \<and>
         stock s (stockItemId item) = Some stockItem \<and> si_name stockItem = nm \<and>
         int_lt_num (si_quantity stockItem) (quantity item))) \<and>
   (fst (create_order coerce new_id user_id body s) = Inl e \<longrightarrow>
      snd (create_order coerce new_id user_id body s) = s) \<and>
   status_code MissingFields = 400 \<and> status_code (StockNotFound sid) = 400 \<and>
   status_code (InsufficientStock nm) = 400"
proof -
  let ?res = "fst (create_order coerce new_id user_id body s)"
  have missing: "?res = Inl MissingFields \<longleftrightarrow> missing_fields body"
  proof
    assume "?res = Inl MissingFields"
    from create_order_Inl_cases [OF this] show "missing_fields body"
      by (auto simp: line_error_def split: option.splits)
  next
    assume "missing_fields body"
    then show "?res = Inl MissingFields" by (simp add: create_order_missing)
  qed
  have notfound: "?res = Inl (StockNotFound sid) \<longleftrightarrow>
      \<not> missing_fields body \<and>
      (\<exists>pre item post. body_items body = Some (pre @ item # post) \<and>
         list_all (line_ok (stock s)) pre \<and>
         stock s (stockItemId item) = None \<and> stockItemId item = sid)"
    (is "?l \<longleftrightarrow> ?r")
  proof
    assume ?l
    from create_order_Inl_cases [OF this] obtain pre item post where
      "\<not> missing_fields body" "body_items body = Some (pre @ item # post)"
      "list_all (line_ok (stock s)) pre"
      "StockNotFound sid = line_error (stock s) item"
      by auto
    moreover from this(4) have "stock s (stockItemId item) = None \<and> stockItemId item = sid"
      by (auto simp: line_error_def split: option.splits)
    ultimately show ?r by blast
  next
    assume ?r
    then obtain pre item post where
      h: "\<not> missing_fields body" "body_items body = Some (pre @ item # post)"
         "list_all (line_ok (stock s)) pre" "stock s (stockItemId item) = None"
         "stockItemId item = sid"
      by blast
    from h(4) have "\<not> line_ok (stock s) item" by (simp add: line_ok_def)
    from create_order_first_bad [OF h(1,2,3) this, of coerce new_id user_id] h(4,5)
    show ?l by (simp add: line_error_def)
  qed
  have insufficient: "?res = Inl (InsufficientStock nm) \<longleftrightarrow>
      \<not> missing_fields body \<and>
      (\<exists>pre item post stockItem. body_items body = Some (pre @ item # post) \<and>
         list_all (line_ok (stock s)) pre \<and>
         stock s (stockItemId item) = Some stockItem \<and> si_name stockItem = nm \<and>
         int_lt_num (si_quantity stockItem) (quantity item))"
    (is "?l \<longleftrightarrow> ?r")
  proof
    assume ?l
    from create_order_Inl_cases [OF this] obtain pre item post where
      h: "\<not> missing_fields body" "body_items body = Some (pre @ item # post)"
         "list_all (line_ok (stock s)) pre" "\<not> line_ok (stock s) item"
         "InsufficientStock nm = line_error (stock s) item"
      by auto
    from h(4,5) obtain stockItem where
      "stock s (stockItemId item) = Some stockItem" "si_name stockItem = nm"
      "int_lt_num (si_quantity stockItem) (quantity item)"
      by (auto simp: line_error_def line_ok_def split: option.splits)
    with h(1,2,3) show ?r by blast
  next
    assume ?r
    then obtain pre item post stockItem where
      h: "\<not> missing_fields body" "body_items body = Some (pre @ item # post)"
         "list_all (line_ok (stock s)) pre" "stock s (stockItemId item) = Some stockItem"
         "si_name stockItem = nm" "int_lt_num (si_quantity stockItem) (quantity item)"
      by blast
    from h(4,6) have "\<not> line_ok (stock s) item" by (simp add: line_ok_def)
    from create_order_first_bad [OF h(1,2,3) this, of coerce new_id user_id] h(4,5)
    show ?l by (simp add: line_error_def)
  qed
  have unchanged: "?res = Inl e \<longrightarrow> snd (create_order coerce new_id user_id body s) = s"
    by (simp add: create_order_Inl_state)
  from missing notfound insufficient unchanged show ?thesis by simp
qed

text \<open>
  Scenario B: 3 pieces on hand, 4 requested. The answer is insufficient stock for
  Plywood and no order is stored.
\<close>

theorem create_order_validation_witness:
  "fst (create_order refusing ''o1'' ''rep'' (plywood_order [4]) (shop 3)) =
     Inl (InsufficientStock ''Plywood'') \<and>
   snd (create_order refusing ''o1'' ''rep'' (plywood_order [4]) (shop 3)) = shop 3 \<and>
   orders (shop 3) ''o1'' = None"
proof -
  have nm: "\<not> missing_fields (plywood_order [4])"
    by (simp add: missing_fields_def falsy_def plywood_order_def)
  have "body_items (plywood_order [4]) =
      Some ([] @ \<lparr>stockItemId = ''s1'', quantity = Num 4, sellingPrice = Some (Num 100)\<rparr> # []) \<and>
    list_all (line_ok (stock (shop 3))) [] \<and>
    stock (shop 3)
      (stockItemId \<lparr>stockItemId = ''s1'', quantity = Num 4, sellingPrice = Some (Num 100)\<rparr>) =
      Some \<lparr>si_name = ''Plywood'', si_quantity = 3, si_buyingPrice = Num 80,
            si_sellingPrice = Some (Num 100)\<rparr> \<and>
    si_name \<lparr>si_name = ''Plywood'', si_quantity = 3, si_buyingPrice = Num 80,
            si_sellingPrice = Some (Num 100)\<rparr> = ''Plywood'' \<and>
    int_lt_num
      (si_quantity \<lparr>si_name = ''Plywood'', si_quantity = 3, si_buyingPrice = Num 80,
            si_sellingPrice = Some (Num 100)\<rparr>)
      (quantity \<lparr>stockItemId = ''s1'', quantity = Num 4, sellingPrice = Some (Num 100)\<rparr>)"
    by (simp add: plywood_order_def shop_def)
  then have ex: "\<exists>pre item post stockItem.
      body_items (plywood_order [4]) = Some (pre @ item # post) \<and>
      list_all (line_ok (stock (shop 3))) pre \<and>
      stock (shop 3) (stockItemId item) = Some stockItem \<and> si_name stockItem = ''Plywood'' \<and>
      int_lt_num (si_quantity stockItem) (quantity item)"
    by blast
  note inst = create_order_validation
    [of refusing "''o1''" "''rep''" "plywood_order [4]" "shop 3" "''s1''" "''Plywood''"
        "InsufficientStock ''Plywood''"]
  from inst nm ex have
    r: "fst (create_order refusing ''o1'' ''rep'' (plywood_order [4]) (shop 3)) =
          Inl (InsufficientStock ''Plywood'')"
    by blast
  with inst have "snd (create_order refusing ''o1'' ''rep'' (plywood_order [4]) (shop 3)) = shop 3"
    by blast
  with r show ?thesis by (simp add: shop_def)
qed



text \<open>
  C6. A successful approval was an approval of a PENDING order whose every line passed
  the re-check; it sets the order's status to APPROVED, and it lowers the quantity of
  every stock item by the quantities of the lines that refer to it, leaving the rest of
  the stock row as it was. When the lines refer to different stock items, each
  referenced item is lowered by exactly its line's quantity. And such an approval does
  succeed: without a fault, a PENDING order whose lines refer to different stock items
  and all pass the re-check, with new quantities that fit the column, is approved.
\<close>

theorem approve_order_decrements:
  "(approve_order fault oid s = (Inr r, s') \<longrightarrow>
     (\<exists>ord. orders s oid = Some ord \<and> status ord = PENDING \<and>
        list_all (\<lambda>l. case stock s (oi_stockItemId l) of None \<Rightarrow> False
                       | Some stockItem \<Rightarrow> oi_quantity l \<le> si_quantity stockItem)
          (orderItems ord) \<and>
        r = Some (ord\<lparr>status := APPROVED\<rparr>) \<and>
        orders s' = (orders s)(oid \<mapsto> ord\<lparr>status := APPROVED\<rparr>) \<and>
        (\<forall>sid. stock s' sid =
           map_option
             (\<lambda>stockItem. stockItem\<lparr>si_quantity :=
                si_quantity stockItem - requested sid (orderItems ord)\<rparr>)
             (stock s sid)) \<and>
        (distinct (map oi_stockItemId (orderItems ord)) \<longrightarrow>
           list_all
             (\<lambda>l. map_option si_quantity (stock s' (oi_stockItemId l)) =
                  map_option (\<lambda>stockItem. si_quantity stockItem - oi_quantity l)
                    (stock s (oi_stockItemId l)))
             (orderItems ord)))) \<and>
   (orders s oid = Some pending \<longrightarrow> status pending = PENDING \<longrightarrow>
    distinct (map oi_stockItemId (orderItems pending)) \<longrightarrow>
    list_all (\<lambda>l. case stock s (oi_stockItemId l) of None \<Rightarrow> False
        | Some stockItem \<Rightarrow>
            oi_quantity l \<le> si_quantity stockItem \<and>
            int4 (si_quantity stockItem - oi_quantity l)) (orderItems pending) \<longrightarrow>
    (\<exists>s1. approve_order None oid s = (Inr (Some (pending\<lparr>status := APPROVED\<rparr>)), s1)))"
proof (intro conjI impI)
  assume "approve_order fault oid s = (Inr r, s')"
  from approve_order_Inr [OF this] obtain ord fault' where
    o: "orders s oid = Some ord" "status ord = PENDING"
       "check_stock (stock s) (orderItems ord) = None"
       "r = Some (ord\<lparr>status := APPROVED\<rparr>)"
       "orders s' = (orders s)(oid \<mapsto> ord\<lparr>status := APPROVED\<rparr>)" and
    d: "deduct_stock fault (orderItems ord) (stock s) = Inr (stock s', fault')"
    by blast
  have q: "stock s' sid =
       map_option
         (\<lambda>stockItem. stockItem\<lparr>si_quantity :=
            si_quantity stockItem - requested sid (orderItems ord)\<rparr>)
         (stock s sid)" for sid
    by (rule deduct_stock_quantities [OF d])
  have "list_all
         (\<lambda>l. map_option si_quantity (stock s' (oi_stockItemId l)) =
              map_option (\<lambda>stockItem. si_quantity stockItem - oi_quantity l)
                (stock s (oi_stockItemId l)))
         (orderItems ord)"
    if "distinct (map oi_stockItemId (orderItems ord))"
    unfolding list_all_iff
  proof
    fix l assume "l \<in> set (orderItems ord)"
    with that have "requested (oi_stockItemId l) (orderItems ord) = oi_quantity l"
      by (rule requested_distinct)
    with q [of "oi_stockItemId l"] show
      "map_option si_quantity (stock s' (oi_stockItemId l)) =
       map_option (\<lambda>stockItem. si_quantity stockItem - oi_quantity l)
         (stock s (oi_stockItemId l))"
      by (cases "stock s (oi_stockItemId l)") simp_all
  qed
  with o q check_stock_None [OF o(3)] show
    "\<exists>ord. orders s oid = Some ord \<and> status ord = PENDING \<and>
        list_all (\<lambda>l. case stock s (oi_stockItemId l) of None \<Rightarrow> False
                       | Some stockItem \<Rightarrow> oi_quantity l \<le> si_quantity stockItem)
          (orderItems ord) \<and>
        r = Some (ord\<lparr>status := APPROVED\<rparr>) \<and>
        orders s' = (orders s)(oid \<mapsto> ord\<lparr>status := APPROVED\<rparr>) \<and>
        (\<forall>sid. stock s' sid =
           map_option
             (\<lambda>stockItem. stockItem\<lparr>si_quantity :=
                si_quantity stockItem - requested sid (orderItems ord)\<rparr>)
             (stock s sid)) \<and>
        (distinct (map oi_stockItemId (orderItems ord)) \<longrightarrow>
           list_all
             (\<lambda>l. map_option si_quantity (stock s' (oi_stockItemId l)) =
                  map_option (\<lambda>stockItem. si_quantity stockItem - oi_quantity l)
                    (stock s (oi_stockItemId l)))
             (orderItems ord))"
    by blast
next
  assume "orders s oid = Some pending" "status pending = PENDING"
    "distinct (map oi_stockItemId (orderItems pending))"
    "list_all (\<lambda>l. case stock s (oi_stockItemId l) of None \<Rightarrow> False
        | Some stockItem \<Rightarrow>
            oi_quantity l \<le> si_quantity stockItem \<and>
            int4 (si_quantity stockItem - oi_quantity l)) (orderItems pending)"
  then show "\<exists>s1. approve_order None oid s = (Inr (Some (pending\<lparr>status := APPROVED\<rparr>)), s1)"
    by (rule approve_order_succeeds)
qed

text \<open>
  Scenario A: Plywood at 10, one line of 4 at price 100. The order is created PENDING
  with total 400; approving it answers the APPROVED order and leaves 6 pieces.
\<close>

theorem approve_order_decrements_witness:
  "fst (approve_order None ''o1''
          (snd (create_order refusing ''o1'' ''rep'' (plywood_order [4]) (shop 10)))) =
     Inr (Some \<lparr>customerName = ''Abebe'', customerContact = ''0911000000'',
                status = APPROVED, totalAmount = Num 400, rejectionReason = None,
                salesRepId = ''rep'',
                orderItems = [\<lparr>oi_stockItemId = ''s1'', oi_quantity = 4,
                               oi_unitPrice = Num 100, oi_totalPrice = Num 400\<rparr>]\<rparr>) \<and>
   map_option si_quantity
     (stock (snd (approve_order None ''o1''
                    (snd (create_order refusing ''o1'' ''rep'' (plywood_order [4]) (shop 10)))))
        ''s1'') =
     Some 6"
proof -
  let ?s = "snd (create_order refusing ''o1'' ''rep'' (plywood_order [4]) (shop 10))"
  let ?ord = "\<lparr>customerName = ''Abebe'', customerContact = ''0911000000'',
                status = PENDING, totalAmount = Num 400, rejectionReason = None,
                salesRepId = ''rep'',
                orderItems = [\<lparr>oi_stockItemId = ''s1'', oi_quantity = 4,
                               oi_unitPrice = Num 100, oi_totalPrice = Num 400\<rparr>]\<rparr>"
  let ?a = "approve_order None ''o1'' ?s"
  have f: "fst ?a = Inr (Some (?ord\<lparr>status := APPROVED\<rparr>))"
    by (simp add: scenario_defs)
  then have "?a = (Inr (Some (?ord\<lparr>status := APPROVED\<rparr>)), snd ?a)"
    by (metis prod.collapse)
  with approve_order_decrements
    [of None "''o1''" ?s "Some (?ord\<lparr>status := APPROVED\<rparr>)" "snd ?a"]
  obtain ord where
    o: "orders ?s ''o1'' = Some ord" and
    q: "stock (snd ?a) ''s1'' =
       map_option
         (\<lambda>stockItem. stockItem\<lparr>si_quantity :=
            si_quantity stockItem - requested ''s1'' (orderItems ord)\<rparr>)
         (stock ?s ''s1'')"
    by blast
  have "orders ?s ''o1'' = Some ?ord" by (simp add: scenario_defs)
  with o have "ord = ?ord" by simp
  moreover have "stock ?s ''s1'' =
      Some \<lparr>si_name = ''Plywood'', si_quantity = 10, si_buyingPrice = Num 80,
            si_sellingPrice = Some (Num 100)\<rparr>"
    by (simp add: scenario_defs)
  ultimately have "map_option si_quantity (stock (snd ?a) ''s1'') = Some 6"
    using q by (simp add: requested_def)
  with f show ?thesis by simp
qed

text \<open>
  C7. Intake writes nothing to the stock table: after a create-order request, accepted
  or refused, every stock row (quantity, prices, name) is what it was, and so is every
  order stored under another key.
\<close>

theorem create_order_leaves_stock:
  "stock (snd (create_order coerce new_id user_id body s)) = stock s \<and>
   (k \<noteq> new_id \<longrightarrow>
      orders (snd (create_order coerce new_id user_id body s)) k = orders s k)"
proof (cases "create_order coerce new_id user_id body s")
  case (Pair res s')
  show ?thesis
  proof (cases res)
    case (Inl e)
    with Pair create_order_Inl_state [of coerce new_id user_id body s e] show ?thesis by simp
  next
    case (Inr ord)
    with Pair have "create_order coerce new_id user_id body s = (Inr ord, s')" by simp
    from create_order_Inr [OF this] have "s' = s\<lparr>orders := (orders s)(new_id \<mapsto> ord)\<rparr>"
      by blast
    with Pair show ?thesis by simp
  qed
qed

theorem create_order_leaves_stock_witness:
  "stock (snd (create_order refusing ''o1'' ''rep'' (plywood_order [4]) (shop 10))) =
     stock (shop 10) \<and>
   stock (snd (create_order refusing ''o1'' ''rep'' (plywood_order [4]) (shop 3))) =
     stock (shop 3) \<and>
   orders (snd (create_order refusing ''o1'' ''rep'' (plywood_order [4]) (shop 10))) ''o2'' =
     None"
proof -
  have "orders (shop 10) ''o2'' = None" by (simp add: shop_def)
  with create_order_leaves_stock
      [of refusing "''o1''" "''rep''" "plywood_order [4]" "shop 10" "''o2''"]
    create_order_leaves_stock
      [of refusing "''o1''" "''rep''" "plywood_order [4]" "shop 3" "''o2''"]
  show ?thesis by simp
qed

text \<open>
  C8. Reject answers 400 rejection reason required when the reason is absent or empty,
  and changes nothing then. With a reason, on an order that exists, it sets the status
  to REJECTED and stores the reason. In every case the stock table is untouched.
\<close>

theorem reject_order_reason:
  "(falsy reason \<longrightarrow> reject_order oid reason s = (Inl MissingReason, s)) \<and>
   status_code MissingReason = 400 \<and>
   (\<not> falsy reason \<longrightarrow> orders s oid = Some ord \<longrightarrow>
      reject_order oid reason s =
        (Inr (ord\<lparr>status := REJECTED, rejectionReason := reason\<rparr>),
         s\<lparr>orders := (orders s)(oid \<mapsto> ord\<lparr>status := REJECTED, rejectionReason := reason\<rparr>)\<rparr>)) \<and>
   (reject_order oid reason s = (Inr ord', s') \<longrightarrow>
      status ord' = REJECTED \<and> rejectionReason ord' = reason \<and>
      orders s' oid = Some ord') \<and>
   stock (snd (reject_order oid reason s)) = stock s"
  by (auto simp: reject_order_def Let_def split: option.splits)

text \<open>
  Scenario C: the pending order of scenario A is rejected with the reason
  \<open>customer cancelled\<close>; without a reason the request is refused.
\<close>

theorem reject_order_reason_witness:
  "map_option (\<lambda>ord. (status ord, rejectionReason ord))
     (orders (snd (reject_order ''o1'' (Some ''customer cancelled'')
        (snd (create_order refusing ''o1'' ''rep'' (plywood_order [4]) (shop 10))))) ''o1'') =
     Some (REJECTED, Some ''customer cancelled'') \<and>
   map_option si_quantity
     (stock (snd (reject_order ''o1'' (Some ''customer cancelled'')
        (snd (create_order refusing ''o1'' ''rep'' (plywood_order [4]) (shop 10))))) ''s1'') =
     Some 10 \<and>
   fst (reject_order ''o1'' (Some [])
        (snd (create_order refusing ''o1'' ''rep'' (plywood_order [4]) (shop 10)))) =
     Inl MissingReason \<and>
   fst (reject_order ''o1'' None
        (snd (create_order refusing ''o1'' ''rep'' (plywood_order [4]) (shop 10)))) =
     Inl MissingReason"
proof -
  let ?s = "snd (create_order refusing ''o1'' ''rep'' (plywood_order [4]) (shop 10))"
  let ?ord = "plywood_pending 4"
  have o: "orders ?s ''o1'' = Some ?ord" by (simp add: create_plywood)
  have st: "map_option si_quantity (stock ?s ''s1'') = Some 10"
    by (simp add: create_plywood) (simp add: shop_def)
  have r: "\<not> falsy (Some ''customer cancelled'')" "falsy (Some [])" "falsy None"
    by (simp_all add: falsy_def)
  from reject_order_reason [of "Some ''customer cancelled''" "''o1''" ?s ?ord] r(1) o
  have "reject_order ''o1'' (Some ''customer cancelled'') ?s =
      (Inr (?ord\<lparr>status := REJECTED, rejectionReason := Some ''customer cancelled''\<rparr>),
       ?s\<lparr>orders := (orders ?s)(''o1'' \<mapsto>
            ?ord\<lparr>status := REJECTED, rejectionReason := Some ''customer cancelled''\<rparr>)\<rparr>)"
    by blast
  then have "map_option (\<lambda>ord. (status ord, rejectionReason ord))
       (orders (snd (reject_order ''o1'' (Some ''customer cancelled'') ?s)) ''o1'') =
     Some (REJECTED, Some ''customer cancelled'')"
    and "stock (snd (reject_order ''o1'' (Some ''customer cancelled'') ?s)) = stock ?s"
    by simp_all
  moreover from reject_order_reason [of "Some []" "''o1''" ?s] r(2)
  have "fst (reject_order ''o1'' (Some []) ?s) = Inl MissingReason" by simp
  moreover from reject_order_reason [of None "''o1''" ?s] r(3)
  have "fst (reject_order ''o1'' None ?s) = Inl MissingReason" by simp
  ultimately show ?thesis using st by simp
qed

text \<open>
  C9. Every line item of a created order has a quantity of at least 1. The code breaks
  this: the only test of intake on a quantity is that it does not exceed the quantity on
  hand, which 0 and negative quantities pass. A line of 0 pieces and a line of -2 pieces
  are accepted and stored; the order of -2 pieces has a total of -200, and approving it
  raises the stock from 3 to 5. (The route that adds a stock item does refuse negative
  quantities.)
\<close>

theorem create_order_zero_quantity:
  "map_option (map oi_quantity \<circ> orderItems)
     (orders (snd (create_order coerce ''o1'' ''rep'' (plywood_order [0]) (shop 3))) ''o1'') =
     Some [0] \<and>
   map_option quantities_positive
     (orders (snd (create_order coerce ''o1'' ''rep'' (plywood_order [0]) (shop 3))) ''o1'') =
     Some False \<and>
   map_option (\<lambda>ord. (map oi_quantity (orderItems ord), totalAmount ord))
     (orders (snd (create_order coerce ''o1'' ''rep'' (plywood_order [- 2]) (shop 3))) ''o1'') =
     Some ([- 2], Num (- 200)) \<and>
   map_option quantities_positive
     (orders (snd (create_order coerce ''o1'' ''rep'' (plywood_order [- 2]) (shop 3))) ''o1'') =
     Some False \<and>
   map_option status
     (orders (run coerce [CreateOrder ''o1'' ''rep'' (plywood_order [- 2]),
                          ApproveOrder None ''o1''] (shop 3)) ''o1'') = Some APPROVED \<and>
   map_option si_quantity
     (stock (run coerce [CreateOrder ''o1'' ''rep'' (plywood_order [- 2]),
                         ApproveOrder None ''o1''] (shop 3)) ''s1'') = Some 5"
  by (simp add: scenario_defs quantities_positive_def)

text \<open>
  C10. Reject updates the order by key without looking it up first: for a key that is
  not in the order table (and a reason supplied) the update throws, and the answer is
  500 internal server error with the state unchanged. Reject never answers 404 order
  not found.
\<close>

theorem reject_order_unknown:
  "(\<not> falsy reason \<longrightarrow> orders s oid = None \<longrightarrow>
      reject_order oid reason s = (Inl InternalServerError, s)) \<and>
   status_code InternalServerError = 500 \<and>
   status_code OrderNotFound = 404 \<and>
   fst (reject_order oid reason s) \<noteq> Inl OrderNotFound"
  by (auto simp: reject_order_def Let_def split: option.splits)

theorem reject_order_unknown_witness:
  "reject_order ''o9'' (Some ''customer cancelled'') (shop 10) =
     (Inl InternalServerError, shop 10) \<and>
   status_code InternalServerError = 500"
proof -
  have "\<not> falsy (Some ''customer cancelled'')" "orders (shop 10) ''o9'' = None"
    by (simp_all add: falsy_def shop_def)
  with reject_order_unknown [of "Some ''customer cancelled''" "shop 10" "''o9''"]
  show ?thesis by blast
qed

end
